theory Spec2Isabelle
  imports Main "HOL-Library.Word"
begin

unbundle bit_operations_syntax

section \<open>The external CSV collector: parseFile\<close>

text \<open>
  Go run-time panics are values: a function that can panic returns \<open>panic + 'a\<close>,
  with \<open>Inl\<close> the panic.
\<close>

datatype panic =
    Index_out_of_range nat nat
  | Nil_dereference
  | Explicit_panic string

text \<open>What the loggers are called with.\<close>

datatype log_event =
    Warn_err string
  | Warn_missing_fields string "string list"
  | Warn_column string
  | Warn_should_not_happen string string
  | Warn_buffer string
  | Warn_dumping string
  | Critical_err string
  | Debug_msg string
  | Debug_file string string
  | Debug_counts nat nat
  | Debug_dumping nat

text \<open>
  \<open>collector.Filterable\<close>, embedded in \<open>Printable\<close>. The struct and the two values
  \<open>collector.EmptyFilterable\<close> and \<open>collector.AllFilterable\<close> are declared outside
  the files at hand.
\<close>

record Filterable =
  Filter :: string

text \<open>
  Modelled from the spec: \<open>collector.EmptyFilterable\<close> is missing; the filter \<open>none\<close>
  "is the empty/sentinel; default when unspecified is \<open>all\<close>".
\<close>

definition EmptyFilterable :: Filterable where
  "EmptyFilterable = \<lparr>Filter = ''''\<rparr>"

text \<open>
  Modelled from the spec: \<open>collector.AllFilterable\<close> is missing; "Records with an empty
  \<open>filter\<close> default to \<open>all\<close>".
\<close>

definition AllFilterable :: Filterable where
  "AllFilterable = \<lparr>Filter = ''all''\<rparr>"

text \<open>
  The struct \<open>Printable\<close> of package nagflux, as \<open>parseFile\<close> uses it: the embedded
  \<open>Filterable\<close>, \<open>Table\<close>, \<open>Timestamp\<close> and the two maps (\<open>fields\<close> is written \<open>fields'\<close>:
  the plain name is taken by the record package).
\<close>

record Printable =
  Filterable :: Filterable
  Table :: string
  Timestamp :: string
  tags :: "string \<rightharpoonup> string"
  fields' :: "string \<rightharpoonup> string"

definition requiredFields :: "string list" where
  "requiredFields = [''table'', ''time'']"

definition optionalFields :: "string list" where
  "optionalFields = [''target'']"

text \<open>
  Modelled from the spec: \<open>helper.Contains\<close> is missing; the required columns are
  \<open>table\<close> and \<open>time\<close>, "missing either aborts the file with a warning", so
  \<open>Contains hay needles\<close> holds when every needle occurs in the hay.
\<close>

definition helper_Contains :: "string list \<Rightarrow> string list \<Rightarrow> bool" where
  "helper_Contains hay needles = list_all (\<lambda>n. n \<in> set hay) needles"

text \<open>
  What \<open>os.Open\<close> followed by \<open>csv.Reader.ReadAll\<close> gives for a file name: an error of
  either call, or the rows. The reader is the standard library's; with the default
  \<open>FieldsPerRecord = 0\<close> every row it returns has as many fields as the first one.
\<close>

datatype opened =
    Open_error string
  | ReadAll_error string
  | ReadAll_ok "string list list"

record indices =
  tagIndices :: "nat \<rightharpoonup> string"
  fieldIndices :: "nat \<rightharpoonup> string"

text \<open>The body of the loop over the header row, lines 111 to 123.\<close>

definition header_col :: "nat \<Rightarrow> string \<Rightarrow> indices \<times> log_event list \<Rightarrow> indices \<times> log_event list" where
  "header_col i v s =
    (case s of (ix, lg) \<Rightarrow>
      if length v > 1 \<and> take 2 v = ''t_'' then
        (ix\<lparr>tagIndices := (tagIndices ix)(i \<mapsto> drop 2 v)\<rparr>, lg)
      else if length v > 1 \<and> take 2 v = ''f_'' then
        (ix\<lparr>fieldIndices := (fieldIndices ix)(i \<mapsto> drop 2 v)\<rparr>, lg)
      else if helper_Contains requiredFields [v] then (ix, lg)
      else if helper_Contains optionalFields [v] then (ix, lg)
      else (ix, lg @ [Warn_column v]))"

fun header_loop :: "nat \<Rightarrow> string list \<Rightarrow> indices \<times> log_event list \<Rightarrow> indices \<times> log_event list" where
  "header_loop i [] s = s"
| "header_loop i (v # vs) s = header_loop (Suc i) vs (header_col i v s)"

text \<open>
  The body of the loop over the cells of a row, lines 131 to 145, for a cell that is not
  empty; \<open>h\<close> is \<open>records[0]\<close> and the caller has checked \<open>i < length h\<close>.
\<close>

definition cell :: "string list \<Rightarrow> indices \<Rightarrow> nat \<Rightarrow> string \<Rightarrow> Printable \<times> log_event list \<Rightarrow> Printable \<times> log_event list" where
  "cell h ix i v s =
    (case s of (p, lg) \<Rightarrow>
      if h ! i = requiredFields ! 0 then (p\<lparr>Table := v\<rparr>, lg)
      else if h ! i = requiredFields ! 1 then (p\<lparr>Timestamp := v\<rparr>, lg)
      else if h ! i = optionalFields ! 0 then (p\<lparr>Filterable := \<lparr>Filter = v\<rparr>\<rparr>, lg)
      else (case tagIndices ix i of
        Some val \<Rightarrow> (p\<lparr>tags := (tags p)(val \<mapsto> v)\<rparr>, lg)
      | None \<Rightarrow> (case fieldIndices ix i of
          Some val \<Rightarrow> (p\<lparr>fields' := (fields' p)(val \<mapsto> v)\<rparr>, lg)
        | None \<Rightarrow> (p, lg @ [Warn_should_not_happen (h ! i) v]))))"

text \<open>
  The loop over the cells. \<open>records[0][i]\<close> is read for a cell that is not empty only,
  and panics when the header has no column \<open>i\<close>.
\<close>

fun cells_loop :: "string list \<Rightarrow> indices \<Rightarrow> nat \<Rightarrow> string list \<Rightarrow> Printable \<times> log_event list \<Rightarrow> (panic + Printable) \<times> log_event list" where
  "cells_loop h ix i [] s = (Inr (fst s), snd s)"
| "cells_loop h ix i (v # vs) s =
    (if v \<noteq> [] then
       (if i < length h then cells_loop h ix (Suc i) vs (cell h ix i v s)
        else (Inl (Index_out_of_range i (length h)), snd s))
     else cells_loop h ix (Suc i) vs s)"

definition newPrintable :: Printable where
  "newPrintable =
    \<lparr>Filterable = \<lparr>Filter = ''''\<rparr>, Table = '''', Timestamp = '''',
     tags = Map.empty, fields' = Map.empty\<rparr>"

definition defaultFilter :: "Printable \<Rightarrow> Printable" where
  "defaultFilter p =
    (if Filterable p = EmptyFilterable then p\<lparr>Filterable := AllFilterable\<rparr> else p)"

text \<open>The loop over the rows after the header, lines 125 to 153.\<close>

fun rows_loop :: "string list \<Rightarrow> indices \<Rightarrow> string list list \<Rightarrow> Printable list \<times> log_event list \<Rightarrow> (panic + Printable list) \<times> log_event list" where
  "rows_loop h ix [] s = (Inr (fst s), snd s)"
| "rows_loop h ix (r # rs) s =
    (case cells_loop h ix 0 r (newPrintable, snd s) of
       (Inl e, lg) \<Rightarrow> (Inl e, lg)
     | (Inr p, lg) \<Rightarrow> rows_loop h ix rs (fst s @ [defaultFilter p], lg))"

definition noIndices :: indices where
  "noIndices = \<lparr>tagIndices = Map.empty, fieldIndices = Map.empty\<rparr>"

text \<open>
  \<open>parseFile\<close>: the result, or the panic, and what was logged. \<open>records[0]\<close> at line
  103 is read before anything else is done with the rows.
\<close>

definition parseFile :: "string \<Rightarrow> opened \<Rightarrow> (panic + Printable list) \<times> log_event list" where
  "parseFile filename f =
    (case f of
       Open_error e \<Rightarrow> (Inr [], [Warn_err e])
     | ReadAll_error e \<Rightarrow> (Inr [], [Warn_err e])
     | ReadAll_ok records \<Rightarrow>
        (case records of
           [] \<Rightarrow> (Inl (Index_out_of_range 0 0), [])
         | h # rest \<Rightarrow>
            if \<not> helper_Contains h requiredFields then
              (Inr [], [Warn_missing_fields filename requiredFields])
            else
              (case header_loop 0 h (noIndices, []) of
                 (ix, lg) \<Rightarrow> rows_loop h ix rest ([], lg))))"


section \<open>The external CSV collector: the tick of run\<close>

text \<open>
  Time is in nanoseconds, as \<open>time.Duration\<close> is. \<open>IsItTime\<close> reads \<open>time.Now()\<close>;
  the model takes the clock's value as an argument.
\<close>

definition MinFileAge :: int where
  "MinFileAge = 10 * 1000000000"

definition IntervalToCheckDirectory :: int where
  "IntervalToCheckDirectory = 5 * 1000000000"

definition IsItTime :: "int \<Rightarrow> int \<Rightarrow> int \<Rightarrow> bool" where
  "IsItTime now timeStamp duration \<longleftrightarrow> timeStamp + duration < now"

text \<open>
  \<open>path.Clean\<close> of the standard library, on the elements between the slashes: empty
  elements and \<open>.\<close> are dropped, \<open>..\<close> takes the element before it away, stays at the
  front of a path that is not rooted and is dropped at the root; the empty result is \<open>.\<close>.
\<close>

fun split_slash :: "string \<Rightarrow> string list" where
  "split_slash [] = [[]]"
| "split_slash (c # cs) =
    (if c = CHR ''/'' then [] # split_slash cs
     else (case split_slash cs of [] \<Rightarrow> [[c]] | x # xs \<Rightarrow> (c # x) # xs))"

definition clean_step :: "bool \<Rightarrow> string list \<Rightarrow> string \<Rightarrow> string list" where
  "clean_step rooted kept elem =
    (if elem = [] \<or> elem = ''.'' then kept
     else if elem = ''..'' then
       (if kept \<noteq> [] \<and> last kept \<noteq> ''..'' then butlast kept
        else if rooted then kept
        else kept @ [''..''])
     else kept @ [elem])"

fun join_slash :: "string list \<Rightarrow> string" where
  "join_slash [] = []"
| "join_slash [x] = x"
| "join_slash (x # y # ys) = x @ ''/'' @ join_slash (y # ys)"

definition path_Clean :: "string \<Rightarrow> string" where
  "path_Clean p =
    (let rooted = (take 1 p = ''/'');
         out = (if rooted then ''/'' else []) @ join_slash (foldl (clean_step rooted) [] (split_slash p))
     in if out = [] then ''.'' else out)"

text \<open>
  \<open>path.Join\<close> of two elements: the elements that are not empty, joined by a slash and
  cleaned; the empty path when both are empty.
\<close>

definition path_Join :: "string \<Rightarrow> string \<Rightarrow> string" where
  "path_Join folder name =
    (if folder = [] \<and> name = [] then []
     else if folder = [] then path_Clean name
     else path_Clean (folder @ ''/'' @ name))"

text \<open>
  \<open>FilesInDirectoryOlderThanX\<close>; the entries are what \<open>ioutil.ReadDir\<close> lists: names
  with their modification times.
\<close>

definition FilesInDirectoryOlderThanX :: "int \<Rightarrow> (string \<times> int) list \<Rightarrow> string \<Rightarrow> int \<Rightarrow> string list" where
  "FilesInDirectoryOlderThanX now entries folder age =
    map (\<lambda>currentFile. path_Join folder (fst currentFile))
      (filter (\<lambda>currentFile. IsItTime now (snd currentFile) age) entries)"

text \<open>
  Which case of a three-way \<open>select\<close> (quit, send, one minute's timeout) is taken is up to
  the scheduler and the channel's reader: the \<open>n\<close>-th select of a component takes the
  case \<open>sel n\<close>.
\<close>

datatype offer = Quit_first | Accepted | Timed_out

datatype control = Continue | Return

text \<open>
  The state of the collector and of what it acts on: the files of the folder by path, each
  with what opening and reading it gives; where the operating system refuses \<open>os.Remove\<close>
  (a folder that is not writable); the result queues with what has been sent into them; the
  log; the number of selects made; and whether the quit signal has been answered.
\<close>

record collector_state =
  files :: "string \<rightharpoonup> opened"
  remove_refused :: "string \<Rightarrow> bool"
  results :: "Printable list list"
  logged :: "log_event list"
  selects :: nat
  quit_acked :: bool

text \<open>The select of lines 69 to 76, for record \<open>p\<close> and the queue at position \<open>r\<close>.\<close>

definition offer_record :: "(nat \<Rightarrow> offer) \<Rightarrow> Printable \<Rightarrow> nat \<Rightarrow> collector_state \<Rightarrow> control \<times> collector_state" where
  "offer_record sel p r w =
    (case sel (selects w) of
       Quit_first \<Rightarrow> (Return, w\<lparr>selects := Suc (selects w), quit_acked := True\<rparr>)
     | Accepted \<Rightarrow>
         (Continue, w\<lparr>selects := Suc (selects w), results := (results w)[r := results w ! r @ [p]]\<rparr>)
     | Timed_out \<Rightarrow>
         (Continue, w\<lparr>selects := Suc (selects w),
            logged := logged w @ [Warn_buffer ''NagfluxFileCollector: Could not write to buffer'']\<rparr>))"

fun offer_queues :: "(nat \<Rightarrow> offer) \<Rightarrow> Printable \<Rightarrow> nat list \<Rightarrow> collector_state \<Rightarrow> control \<times> collector_state" where
  "offer_queues sel p [] w = (Continue, w)"
| "offer_queues sel p (r # rs) w =
    (case offer_record sel p r w of
       (Return, w') \<Rightarrow> (Return, w')
     | (Continue, w') \<Rightarrow> offer_queues sel p rs w')"

fun offer_records :: "(nat \<Rightarrow> offer) \<Rightarrow> Printable list \<Rightarrow> collector_state \<Rightarrow> control \<times> collector_state" where
  "offer_records sel [] w = (Continue, w)"
| "offer_records sel (p # ps) w =
    (case offer_queues sel p [0 ..< length (results w)] w of
       (Return, w') \<Rightarrow> (Return, w')
     | (Continue, w') \<Rightarrow> offer_records sel ps w')"

text \<open>
  \<open>os.Remove\<close> and the warning of lines 79 to 82: the call fails on a file that is not
  there and where the operating system refuses it; the file then stays as it is.
\<close>

definition os_Remove :: "string \<Rightarrow> collector_state \<Rightarrow> collector_state" where
  "os_Remove currentFile w =
    (if files w currentFile = None then
       w\<lparr>logged := logged w @ [Warn_err ''remove: no such file or directory'']\<rparr>
     else if remove_refused w currentFile then
       w\<lparr>logged := logged w @ [Warn_err ''remove: permission denied'']\<rparr>
     else w\<lparr>files := (files w)(currentFile := None)\<rparr>)"

definition os_Open :: "collector_state \<Rightarrow> string \<Rightarrow> opened" where
  "os_Open w filename =
    (case files w filename of
       None \<Rightarrow> Open_error ''open: no such file or directory''
     | Some f \<Rightarrow> f)"

text \<open>
  The body of the loop over the files, lines 66 to 82. A panic of \<open>parseFile\<close> ends the
  goroutine; a quit signal during the offers returns from \<open>run\<close>, before \<open>os.Remove\<close>.
\<close>

definition run_file :: "(nat \<Rightarrow> offer) \<Rightarrow> string \<Rightarrow> collector_state \<Rightarrow> (panic + control) \<times> collector_state" where
  "run_file sel currentFile w =
    (case parseFile currentFile (os_Open w currentFile) of
       (Inl e, lg) \<Rightarrow>
         (Inl e, w\<lparr>logged := logged w @ [Debug_file ''Reading file: '' currentFile] @ lg\<rparr>)
     | (Inr ps, lg) \<Rightarrow>
         (case offer_records sel ps
                 (w\<lparr>logged := logged w @ [Debug_file ''Reading file: '' currentFile] @ lg\<rparr>) of
            (Return, w') \<Rightarrow> (Inr Return, w')
          | (Continue, w') \<Rightarrow> (Inr Continue, os_Remove currentFile w')))"

fun run_files :: "(nat \<Rightarrow> offer) \<Rightarrow> string list \<Rightarrow> collector_state \<Rightarrow> (panic + control) \<times> collector_state" where
  "run_files sel [] w = (Inr Continue, w)"
| "run_files sel (currentFile # oldFiles) w =
    (case run_file sel currentFile w of
       (Inr Continue, w') \<Rightarrow> run_files sel oldFiles w'
     | (other, w') \<Rightarrow> (other, w'))"

text \<open>
  One firing of the ticker in \<open>FileCollector.run\<close>, lines 59 to 84; \<open>pause\<close> is what
  \<open>config.IsAnyTargetOnPause()\<close> returns at line 60.
\<close>

definition FileCollector_tick :: "(nat \<Rightarrow> offer) \<Rightarrow> bool \<Rightarrow> string list \<Rightarrow> collector_state \<Rightarrow> (panic + control) \<times> collector_state" where
  "FileCollector_tick sel pause oldFiles w =
    (if pause then
       (Inr Continue, w\<lparr>logged := logged w @ [Debug_msg ''NagfluxFileCollector in pause'']\<rparr>)
     else run_files sel oldFiles w)"

text \<open>
  \<open>FileCollector.run\<close> over the events its outer select takes, in order: the quit signal,
  or the ticker, every \<open>IntervalToCheckDirectory\<close>, with the pause flag, the clock and the
  listing of the folder at that moment.
\<close>

datatype tick = Quit_signal | Ticker bool int "(string \<times> int) list"

fun FileCollector_run :: "(nat \<Rightarrow> offer) \<Rightarrow> string \<Rightarrow> tick list \<Rightarrow> collector_state \<Rightarrow> (panic + control) \<times> collector_state" where
  "FileCollector_run sel folder [] w = (Inr Continue, w)"
| "FileCollector_run sel folder (Quit_signal # ts) w = (Inr Return, w\<lparr>quit_acked := True\<rparr>)"
| "FileCollector_run sel folder (Ticker pause now entries # ts) w =
    (case FileCollector_tick sel pause
            (FilesInDirectoryOlderThanX now entries folder MinFileAge) w of
       (Inr Continue, w') \<Rightarrow> FileCollector_run sel folder ts w'
     | (other, w') \<Rightarrow> (other, w'))"

section \<open>The spool-file scanner\<close>

record scanner_state =
  jobs :: "string list"
  scanner_logged :: "log_event list"
  scanner_selects :: nat
  scanner_quit_acked :: bool
  SpoolFilesOnDisk :: nat

text \<open>The select of lines 78 to 85 of the scanner.\<close>

definition offer_job :: "(nat \<Rightarrow> offer) \<Rightarrow> string \<Rightarrow> string \<Rightarrow> scanner_state \<Rightarrow> control \<times> scanner_state" where
  "offer_job sel spoolDirectory name s =
    (case sel (scanner_selects s) of
       Quit_first \<Rightarrow>
         (Return, s\<lparr>scanner_selects := Suc (scanner_selects s), scanner_quit_acked := True\<rparr>)
     | Accepted \<Rightarrow>
         (Continue, s\<lparr>scanner_selects := Suc (scanner_selects s),
            jobs := jobs s @ [path_Join spoolDirectory name]\<rparr>)
     | Timed_out \<Rightarrow>
         (Continue, s\<lparr>scanner_selects := Suc (scanner_selects s),
            scanner_logged := scanner_logged s @
              [Warn_buffer ''NagiosSpoolfileCollector: Could not write to buffer'']\<rparr>))"

fun offer_jobs :: "(nat \<Rightarrow> offer) \<Rightarrow> string \<Rightarrow> string list \<Rightarrow> scanner_state \<Rightarrow> control \<times> scanner_state" where
  "offer_jobs sel spoolDirectory [] s = (Continue, s)"
| "offer_jobs sel spoolDirectory (name # names) s =
    (case offer_job sel spoolDirectory name s of
       (Return, s') \<Rightarrow> (Return, s')
     | (Continue, s') \<Rightarrow> offer_jobs sel spoolDirectory names s')"

text \<open>
  One firing of the ticker in \<open>NagiosSpoolfileCollector.run\<close>, lines 67 to 86; \<open>names\<close>
  are the entries \<open>ioutil.ReadDir\<close> lists.
\<close>

definition NagiosSpoolfileCollector_tick :: "(nat \<Rightarrow> offer) \<Rightarrow> bool \<Rightarrow> string \<Rightarrow> string list \<Rightarrow> scanner_state \<Rightarrow> control \<times> scanner_state" where
  "NagiosSpoolfileCollector_tick sel pause spoolDirectory names s =
    (if pause then
       (Continue, s\<lparr>scanner_logged := scanner_logged s @
          [Debug_msg ''NagiosSpoolfileCollector in pause'']\<rparr>)
     else
       offer_jobs sel spoolDirectory names
         (s\<lparr>scanner_logged := scanner_logged s @ [Debug_file ''Reading Directory: '' spoolDirectory],
            SpoolFilesOnDisk := length names\<rparr>))"


text \<open>\<open>NagiosSpoolfileCollector.run\<close> over the events its outer select takes.\<close>

fun NagiosSpoolfileCollector_run :: "(nat \<Rightarrow> offer) \<Rightarrow> string \<Rightarrow> tick list \<Rightarrow> scanner_state \<Rightarrow> control \<times> scanner_state" where
  "NagiosSpoolfileCollector_run sel spoolDirectory [] s = (Continue, s)"
| "NagiosSpoolfileCollector_run sel spoolDirectory (Quit_signal # ts) s =
    (Return, s\<lparr>scanner_quit_acked := True\<rparr>)"
| "NagiosSpoolfileCollector_run sel spoolDirectory (Ticker pause now entries # ts) s =
    (case NagiosSpoolfileCollector_tick sel pause spoolDirectory (map fst entries) s of
       (Continue, s') \<Rightarrow> NagiosSpoolfileCollector_run sel spoolDirectory ts s'
     | (Return, s') \<Rightarrow> (Return, s'))"

section \<open>The sender worker: files\<close>

text \<open>
  The part of the file system the worker touches: files by name, with their permission bits
  and their bytes, and the process's umask. The operating system may refuse an operation on
  a path (a missing directory, missing rights, a full disk): \<open>refused\<close> says where.
\<close>

type_synonym FileMode = "32 word"

record File =
  fmode :: FileMode
  content :: string

datatype os_op = Op_create | Op_open | Op_write

datatype flag = O_RDWR | O_WRONLY | O_APPEND | O_CREATE | O_TRUNC

text \<open>What ends the worker: a panic, or \<open>log.Fatalf\<close>, which exits the process.\<close>

datatype stop = Panicked panic | Fatal string

text \<open>
  \<open>JSONResult\<close>, as \<open>sendData\<close> and \<open>printErrors\<close> read it: the flag \<open>Errors\<close>, and of
  each item \<open>Create.Status\<close> and \<open>Create.Error.CausedBy.Reason\<close>.
\<close>

record item =
  Status :: int
  Reason :: string

record JSONResult =
  Errors :: bool
  Items :: "item list"

text \<open>
  What \<open>httpClient.Do\<close> gives: an error, or a response with its status code and what
  \<open>json.Unmarshal\<close> makes of its body (the zero \<open>JSONResult\<close> when it is not JSON).
\<close>

datatype http_reply = Do_error string | Reply nat JSONResult

datatype send_error =
  errorInterrupted | errorBadRequest | errorHTTPClient | errorFailedToSend | error500

fun Error :: "send_error \<Rightarrow> string" where
  "Error errorInterrupted = ''Got interrupted''"
| "Error errorBadRequest = ''400 Bad Request''"
| "Error errorHTTPClient = ''Http Client got an error''"
| "Error errorFailedToSend = ''Could not send data''"
| "Error error500 = ''Error 500''"

text \<open>
  What the worker acts on. \<open>http n body\<close> is the outcome of the \<open>n\<close>-th POST when its body
  is \<open>body\<close>; \<open>posts\<close> are the bodies posted so far. \<open>quitInternal\<close> says that the
  channel of that name holds a value; \<open>stop_during n\<close> says that \<open>Stop\<close> sends on it
  during the \<open>n\<close>-th wait of \<open>waitForQuitOrGoOn\<close>. \<open>jobs_chan\<close> is what the worker can
  receive from \<open>worker.jobs\<close> before 200 ms pass without an arrival. \<open>BytesSend\<close> is the
  counter of that name; the float it is added to is exact on these counts. The counter
  \<open>SendDuration\<close> measures the clock and is left out.
\<close>

record 'j world =
  fs :: "string \<rightharpoonup> File"
  umask :: FileMode
  refused :: "os_op \<Rightarrow> string \<Rightarrow> bool"
  http :: "nat \<Rightarrow> string \<Rightarrow> http_reply"
  posts :: "string list"
  quitInternal :: bool
  stop_during :: "nat \<Rightarrow> bool"
  waits :: nat
  jobs_chan :: "'j list"
  worker_logged :: "log_event list"
  BytesSend :: nat
  quit_replied :: bool

text \<open>
  The fields of \<open>Worker\<close> the model reads. \<open>connection_ok\<close> says that \<open>http.NewRequest\<close>
  accepts \<open>worker.connection\<close>; \<open>version_ok\<close> is the test
  \<open>helper.VersionOrdinal(worker.version) >= helper.VersionOrdinal("2.0")\<close>, whose helper is
  not at hand; \<open>PrintForElasticsearch\<close> is the method of the job, at the worker's version
  and index.
\<close>

record 'j Worker =
  dumpFile :: string
  connection_ok :: bool
  version_ok :: bool
  PrintForElasticsearch :: "'j \<Rightarrow> string"

definition nl :: string where
  "nl = [CHR 0x0A]"

definition log_worker :: "log_event \<Rightarrow> 'j world \<Rightarrow> 'j world" where
  "log_worker e w = w\<lparr>worker_logged := worker_logged w @ [e]\<rparr>"

text \<open>
  \<open>os.OpenFile\<close>: the permission argument is used when the call creates the file, that is
  with \<open>O_CREATE\<close> on a name that does not exist, and the umask is taken off it.
\<close>

definition os_OpenFile :: "string \<Rightarrow> flag list \<Rightarrow> FileMode \<Rightarrow> 'j world \<Rightarrow> bool \<times> 'j world" where
  "os_OpenFile name flags perm w =
    (case fs w name of
       None \<Rightarrow>
         if O_CREATE \<in> set flags \<and> \<not> refused w Op_create name then
           (True, w\<lparr>fs := (fs w)(name \<mapsto> \<lparr>fmode = perm AND NOT (umask w), content = []\<rparr>)\<rparr>)
         else (False, w)
     | Some f \<Rightarrow>
         if refused w Op_open name then (False, w)
         else if O_TRUNC \<in> set flags then (True, w\<lparr>fs := (fs w)(name \<mapsto> f\<lparr>content := []\<rparr>)\<rparr>)
         else (True, w))"

text \<open>\<open>os.Create\<close> is \<open>OpenFile(name, O_RDWR|O_CREATE|O_TRUNC, 0666)\<close>.\<close>

definition os_Create :: "string \<Rightarrow> 'j world \<Rightarrow> bool \<times> 'j world" where
  "os_Create name w = os_OpenFile name [O_RDWR, O_CREATE, O_TRUNC] 438 w"

text \<open>\<open>WriteString\<close> on a file opened with \<open>O_APPEND\<close>: the bytes go to the end.\<close>

definition WriteString :: "string \<Rightarrow> string \<Rightarrow> 'j world \<Rightarrow> bool \<times> 'j world" where
  "WriteString name s w =
    (case fs w name of
       None \<Rightarrow> (False, w)
     | Some f \<Rightarrow>
         if refused w Op_write name then (False, w)
         else (True, w\<lparr>fs := (fs w)(name \<mapsto> f\<lparr>content := content f @ s\<rparr>)\<rparr>))"

text \<open>
  \<open>ioutil.WriteFile\<close>: \<open>OpenFile(name, O_WRONLY|O_CREATE|O_TRUNC, perm)\<close> and one write;
  \<open>printErrors\<close> drops its error.
\<close>

definition ioutil_WriteFile :: "string \<Rightarrow> string \<Rightarrow> FileMode \<Rightarrow> 'j world \<Rightarrow> 'j world" where
  "ioutil_WriteFile name data perm w =
    (case os_OpenFile name [O_WRONLY, O_CREATE, O_TRUNC] perm w of
       (False, w') \<Rightarrow> w'
     | (True, w') \<Rightarrow> snd (WriteString name data w'))"

text \<open>The loop of lines 299 to 303.\<close>

fun write_queries :: "string \<Rightarrow> string list \<Rightarrow> 'j world \<Rightarrow> 'j world" where
  "write_queries filename [] w = w"
| "write_queries filename (query # queries) w =
    (case WriteString filename query w of
       (False, w') \<Rightarrow> write_queries filename queries (log_worker (Critical_err ''write'') w')
     | (True, w') \<Rightarrow> write_queries filename queries w')"

text \<open>\<open>dumpQueries\<close>, lines 289 to 305; 0600 is 384.\<close>

definition dumpQueries :: "string \<Rightarrow> string list \<Rightarrow> 'j world \<Rightarrow> 'j world" where
  "dumpQueries filename queries w =
    (let w1 =
       (if fs w filename = None then
          (case os_Create filename w of
             (False, w') \<Rightarrow> log_worker (Critical_err ''create'') w'
           | (True, w') \<Rightarrow> w')
        else w)
     in case os_OpenFile filename [O_APPEND, O_WRONLY] 384 w1 of
          (False, w2) \<Rightarrow> log_worker (Critical_err ''open'') w2
        | (True, w2) \<Rightarrow> write_queries filename queries w2)"

definition dumpErrorQueries :: "'j Worker \<Rightarrow> string \<Rightarrow> string list \<Rightarrow> 'j world \<Rightarrow> 'j world" where
  "dumpErrorQueries worker messageForLog errorQueries w =
    dumpQueries (dumpFile worker @ ''-errors'') (messageForLog # errorQueries)
      (log_worker (Warn_dumping (dumpFile worker @ ''-errors'')) w)"


section \<open>The sender worker: sending\<close>

text \<open>
  \<open>castJobToString\<close>. On a version that is not supported \<open>log.Fatalf\<close> ends the process,
  so the error the function would return then is never seen by a caller.
\<close>

definition castJobToString :: "'j Worker \<Rightarrow> 'j \<Rightarrow> stop + string" where
  "castJobToString worker job =
    (if version_ok worker then
       (let result = PrintForElasticsearch worker job in
        Inr (if length result > 1 \<and> drop (length result - 1) result \<noteq> nl
             then result @ nl else result))
     else Inl (Fatal ''This elasticsearch version given in the config is not supported''))"

text \<open>The loop of lines 131 to 136, and the one of \<open>readQueriesFromQueue\<close>.\<close>

fun cast_queries :: "'j Worker \<Rightarrow> 'j list \<Rightarrow> string list \<Rightarrow> stop + string list" where
  "cast_queries worker [] lineQueries = Inr lineQueries"
| "cast_queries worker (query # queries) lineQueries =
    (case castJobToString worker query of
       Inl e \<Rightarrow> Inl e
     | Inr cast \<Rightarrow> cast_queries worker queries (lineQueries @ [cast]))"

text \<open>Decimal digits of a number, and \<open>fmt.Sprintf("%v", errors)\<close> on a slice of maps.\<close>

fun decimal :: "nat \<Rightarrow> string" where
  "decimal n =
    (if n < 10 then [''0123456789'' ! n]
     else decimal (n div 10) @ [''0123456789'' ! (n mod 10)])"

declare decimal.simps [simp del]

fun join_space :: "string list \<Rightarrow> string" where
  "join_space [] = []"
| "join_space [x] = x"
| "join_space (x # y # ys) = x @ '' '' @ join_space (y # ys)"

definition Sprintf_map :: "(nat \<times> string) list \<Rightarrow> string" where
  "Sprintf_map m = ''map['' @ join_space (map (\<lambda>kv. decimal (fst kv) @ '':'' @ snd kv) m) @ '']''"

definition Sprintf_v :: "(nat \<times> string) list list \<Rightarrow> string" where
  "Sprintf_v errors = ''['' @ join_space (map Sprintf_map errors) @ '']''"

text \<open>The loop of lines 257 to 261; a map of one entry is a list of one pair.\<close>

fun item_errors :: "nat \<Rightarrow> item list \<Rightarrow> (nat \<times> string) list list" where
  "item_errors index [] = []"
| "item_errors index (it # items) =
    (if Status it \<noteq> 201
     then [[(index * 2, filter (\<lambda>c. c \<noteq> CHR 0x0A) (Reason it) @ nl)]] else [])
    @ item_errors (Suc index) items"

text \<open>\<open>printErrors\<close> writes two files (0644 is 420) and panics.\<close>

definition printErrors :: "'j Worker \<Rightarrow> JSONResult \<Rightarrow> string \<Rightarrow> 'j world \<Rightarrow> stop \<times> 'j world" where
  "printErrors worker result rawData w =
    (Panicked (Explicit_panic ''''),
     ioutil_WriteFile (dumpFile worker @ ''.error.json'')
       (Sprintf_v ([] # item_errors 0 (Items result))) 420
       (ioutil_WriteFile (dumpFile worker @ ''.currupt.json'') rawData 420 w))"

text \<open>
  \<open>sendData\<close>, lines 227 to 253. When \<open>http.NewRequest\<close> fails the request is nil and
  line 233 panics. The status code of the response is not read.
\<close>

definition sendData :: "'j Worker \<Rightarrow> string \<Rightarrow> bool \<Rightarrow> 'j world \<Rightarrow> (stop + send_error option) \<times> 'j world" where
  "sendData worker rawData log w =
    (if \<not> connection_ok worker then
       (Inl (Panicked Nil_dereference),
        log_worker (Warn_err ''NewRequest'') (log_worker (Debug_msg rawData) w))
     else
       (case http w (length (posts w)) rawData of
          Do_error e \<Rightarrow>
            (Inr (Some errorHTTPClient),
             log_worker (Warn_err e) ((log_worker (Debug_msg rawData) w)\<lparr>posts := posts w @ [rawData]\<rparr>))
        | Reply status result \<Rightarrow>
            if \<not> Errors result then
              (Inr None, (log_worker (Debug_msg rawData) w)\<lparr>posts := posts w @ [rawData]\<rparr>)
            else if log then
              (case printErrors worker result rawData
                      ((log_worker (Debug_msg rawData) w)\<lparr>posts := posts w @ [rawData]\<rparr>) of
                 (e, w') \<Rightarrow> (Inl e, w'))
            else
              (Inr None, (log_worker (Debug_msg rawData) w)\<lparr>posts := posts w @ [rawData]\<rparr>)))"

text \<open>\<open>waitForQuitOrGoOn\<close>: the value received from \<open>quitInternal\<close> is put back.\<close>

definition waitForQuitOrGoOn :: "'j world \<Rightarrow> send_error option \<times> 'j world" where
  "waitForQuitOrGoOn w =
    (if quitInternal w \<or> stop_during w (waits w) then
       (Some errorInterrupted,
        log_worker (Debug_msg ''Received quit'') (w\<lparr>waits := Suc (waits w), quitInternal := True\<rparr>))
     else (None, w\<lparr>waits := Suc (waits w)\<rparr>))"

definition readQueriesFromQueue :: "'j Worker \<Rightarrow> 'j world \<Rightarrow> (stop + string list) \<times> 'j world" where
  "readQueriesFromQueue worker w =
    (case cast_queries worker (jobs_chan w) [] of
       Inl e \<Rightarrow> (Inl e, w)
     | Inr queries \<Rightarrow> (Inr queries, w\<lparr>jobs_chan := []\<rparr>))"

text \<open>\<open>dumpRemainingQueries\<close>, lines 193 to 205 (the mutex is held throughout).\<close>

definition dumpRemainingQueries :: "'j Worker \<Rightarrow> string list \<Rightarrow> 'j world \<Rightarrow> (stop + unit) \<times> 'j world" where
  "dumpRemainingQueries worker remainingQueries w =
    (let w1 = log_worker (Debug_counts (length (jobs_chan w)) (length remainingQueries)) w in
     if jobs_chan w \<noteq> [] \<or> remainingQueries \<noteq> [] then
       (case readQueriesFromQueue worker (log_worker (Debug_msg ''Saving queries to disk'') w1) of
          (Inl e, w2) \<Rightarrow> (Inl e, w2)
        | (Inr queries, w2) \<Rightarrow>
            (Inr (),
             dumpQueries (dumpFile worker) (remainingQueries @ queries)
               (log_worker (Debug_dumping (length (remainingQueries @ queries))) w2)))
     else (Inr (), w1))"

text \<open>The loop of lines 151 to 156: each line is posted alone.\<close>

fun send_each :: "'j Worker \<Rightarrow> string list \<Rightarrow> string list \<Rightarrow> 'j world \<Rightarrow> (stop + string list) \<times> 'j world" where
  "send_each worker [] badQueries w = (Inr badQueries, w)"
| "send_each worker (lineQuery # lineQueries) badQueries w =
    (case sendData worker lineQuery False w of
       (Inl e, w') \<Rightarrow> (Inl e, w')
     | (Inr None, w') \<Rightarrow> send_each worker lineQueries badQueries w'
     | (Inr (Some queryErr), w') \<Rightarrow> send_each worker lineQueries (badQueries @ [lineQuery]) w')"

text \<open>
  One pass of the loop of lines 146 to 171: the switch on \<open>sendErr\<close>. In the default case
  line 169 is reached whether or not line 163 saw the quit signal.
\<close>

definition retry_pass :: "'j Worker \<Rightarrow> string list \<Rightarrow> string \<Rightarrow> send_error option \<Rightarrow> 'j world \<Rightarrow> (stop + send_error option) \<times> 'j world" where
  "retry_pass worker lineQueries dataToSend sendErr w =
    (case sendErr of
       None \<Rightarrow> (Inr None, w)
     | Some err \<Rightarrow>
        if err = errorBadRequest then
          (case send_each worker lineQueries [] w of
             (Inl e, w') \<Rightarrow> (Inl e, w')
           | (Inr badQueries, w') \<Rightarrow>
               (Inr None,
                dumpErrorQueries worker (nl @ nl @ ''One of the values is not clean..'' @ nl)
                  badQueries w'))
        else
          (case waitForQuitOrGoOn w of
             (None, w1) \<Rightarrow> sendData worker dataToSend True w1
           | (Some interrupted, w1) \<Rightarrow>
               (case dumpRemainingQueries worker lineQueries w1 of
                  (Inl e, w2) \<Rightarrow> (Inl e, w2)
                | (Inr u, w2) \<Rightarrow> sendData worker dataToSend True w2)))"

text \<open>The loop \<open>for i := 0; i < 3; i++\<close>, with the passes that are left.\<close>

fun retry_loop :: "'j Worker \<Rightarrow> string list \<Rightarrow> string \<Rightarrow> nat \<Rightarrow> send_error option \<Rightarrow> 'j world \<Rightarrow> (stop + send_error option) \<times> 'j world" where
  "retry_loop worker lineQueries dataToSend 0 sendErr w = (Inr sendErr, w)"
| "retry_loop worker lineQueries dataToSend (Suc n) sendErr w =
    (case retry_pass worker lineQueries dataToSend sendErr w of
       (Inl e, w') \<Rightarrow> (Inl e, w')
     | (Inr sendErr', w') \<Rightarrow> retry_loop worker lineQueries dataToSend n sendErr' w')"

definition count_sent :: "string list \<Rightarrow> 'j world \<Rightarrow> 'j world" where
  "count_sent lineQueries w = w\<lparr>BytesSend := BytesSend w + length lineQueries\<rparr>"

text \<open>\<open>sendBuffer\<close>, lines 125 to 180.\<close>

definition sendBuffer :: "'j Worker \<Rightarrow> 'j list \<Rightarrow> 'j world \<Rightarrow> (stop + unit) \<times> 'j world" where
  "sendBuffer worker queries w =
    (if queries = [] then (Inr (), w)
     else
       (case cast_queries worker queries [] of
          Inl e \<Rightarrow> (Inl e, w)
        | Inr lineQueries \<Rightarrow>
            (case sendData worker (concat lineQueries) True w of
               (Inl e, w1) \<Rightarrow> (Inl e, w1)
             | (Inr None, w1) \<Rightarrow> (Inr (), count_sent lineQueries w1)
             | (Inr (Some err), w1) \<Rightarrow>
                 (case retry_loop worker lineQueries (concat lineQueries) 3 (Some err) w1 of
                    (Inl e, w2) \<Rightarrow> (Inl e, w2)
                  | (Inr None, w2) \<Rightarrow> (Inr (), count_sent lineQueries w2)
                  | (Inr (Some err'), w2) \<Rightarrow>
                      (Inr (),
                       count_sent lineQueries
                         (dumpErrorQueries worker (nl @ nl @ Error err' @ nl) lineQueries w2))))))"

section \<open>The sender worker: the loop of run\<close>












section \<open>Reading a record by column\<close>

text \<open>
  Where a cell of a row goes is decided by the name of its column: \<open>slot_of\<close> follows the
  tests of lines 112 to 119 and 132 to 141. \<open>get\<close> reads a record at a slot; \<open>writes\<close>
  lists, in the order of the columns, the cells of a row that are stored at a slot, and
  \<open>row_get\<close> is the last of them, or what an untouched record holds there once the filter
  has got its default.
\<close>

datatype slot = S_table | S_time | S_target | S_tag string | S_field string

definition slot_of :: "string \<Rightarrow> slot option" where
  "slot_of c =
    (if c = ''table'' then Some S_table
     else if c = ''time'' then Some S_time
     else if c = ''target'' then Some S_target
     else if length c > 1 \<and> take 2 c = ''t_'' then Some (S_tag (drop 2 c))
     else if length c > 1 \<and> take 2 c = ''f_'' then Some (S_field (drop 2 c))
     else None)"

fun get :: "slot \<Rightarrow> Printable \<Rightarrow> string option" where
  "get S_table p = Some (Table p)"
| "get S_time p = Some (Timestamp p)"
| "get S_target p = Some (Filter (Filterable p))"
| "get (S_tag n) p = tags p n"
| "get (S_field n) p = fields' p n"

definition writes :: "slot \<Rightarrow> string list \<Rightarrow> string list \<Rightarrow> string list" where
  "writes s h r =
    map snd (filter (\<lambda>cv. snd cv \<noteq> [] \<and> slot_of (fst cv) = Some s) (zip h r))"

fun slot_default :: "slot \<Rightarrow> string option" where
  "slot_default S_table = Some []"
| "slot_default S_time = Some []"
| "slot_default S_target = Some ''all''"
| "slot_default (S_tag n) = None"
| "slot_default (S_field n) = None"

definition row_get :: "string list \<Rightarrow> string list \<Rightarrow> slot \<Rightarrow> string option" where
  "row_get h r s =
    (if writes s h r \<noteq> [] then Some (last (writes s h r)) else slot_default s)"

definition indexed :: "string list \<Rightarrow> indices \<Rightarrow> bool" where
  "indexed h ix \<longleftrightarrow>
    (\<forall>i. tagIndices ix i =
        (if i < length h \<and> length (h ! i) > 1 \<and> take 2 (h ! i) = ''t_''
         then Some (drop 2 (h ! i)) else None)) \<and>
    (\<forall>i. fieldIndices ix i =
        (if i < length h \<and> length (h ! i) > 1 \<and> take 2 (h ! i) = ''f_''
         then Some (drop 2 (h ! i)) else None))"




text \<open>
  A text that reads as an integer that is not negative: decimal digits, at least one.
\<close>

definition decimal_text :: "string \<Rightarrow> bool" where
  "decimal_text s \<longleftrightarrow> s \<noteq> [] \<and> list_all (\<lambda>c. c \<in> set ''0123456789'') s"


section \<open>Example inputs\<close>



definition happy_header :: "string list" where
  "happy_header = [''table'', ''time'', ''target'', ''t_host'', ''f_value'']"

definition happy_row :: "string list" where
  "happy_row = [''cpu'', ''1700000000000'', ''all'', ''srvA'', ''0.42'']"

definition happy_record :: Printable where
  "happy_record =
    \<lparr>Filterable = \<lparr>Filter = ''all''\<rparr>, Table = ''cpu'', Timestamp = ''1700000000000'',
     tags = [''host'' \<mapsto> ''srvA''], fields' = [''value'' \<mapsto> ''0.42'']\<rparr>"

text \<open>A header with the columns \<open>t_\<close> and \<open>f_\<close>, and a row with no table.\<close>

definition nameless_rows :: "string list list" where
  "nameless_rows = [[''table'', ''time'', ''t_'', ''f_''], ['''', ''soon'', ''x'', ''y'']]"



text \<open>
  A worker whose jobs are their own lines, and a world with no file, the umask 022 (18),
  nothing refused and no quit signal, in which every POST is answered by \<open>reply\<close>.
\<close>

definition line_worker :: "string Worker" where
  "line_worker =
    \<lparr>dumpFile = ''dump'', connection_ok = True, version_ok = True,
     PrintForElasticsearch = (\<lambda>job. job)\<rparr>"

definition world_answering :: "http_reply \<Rightarrow> string world" where
  "world_answering reply =
    \<lparr>fs = Map.empty, umask = 18, refused = (\<lambda>operation name. False),
     http = (\<lambda>n body. reply), posts = [], quitInternal = False,
     stop_during = (\<lambda>n. False), waits = 0, jobs_chan = [], worker_logged = [],
     BytesSend = 0, quit_replied = False\<rparr>"

text \<open>
  The target cannot be reached, one more job waits in the channel, and \<open>Stop\<close> sends the
  quit signal during the first wait.
\<close>

definition interrupted_world :: "string world" where
  "interrupted_world =
    (world_answering (Do_error ''connection refused''))
      \<lparr>stop_during := (\<lambda>n. n = 0), jobs_chan := [''q2'']\<rparr>"

text \<open>The target answers 400 with the second of three items rejected.\<close>

definition rejecting_world :: "string world" where
  "rejecting_world =
    world_answering (Reply 400
      \<lparr>Errors = True,
       Items = [\<lparr>Status = 201, Reason = ''''\<rparr>, \<lparr>Status = 400, Reason = ''mapper_parsing_exception''\<rparr>,
                \<lparr>Status = 201, Reason = ''''\<rparr>]\<rparr>)"

text \<open>The target answers 400 with a body that has no field \<open>errors\<close>.\<close>

definition refusing_world :: "string world" where
  "refusing_world = world_answering (Reply 400 \<lparr>Errors = False, Items = []\<rparr>)"




section \<open>Properties of parseFile\<close>

lemma header_loop_tagIndices:
  "tagIndices (fst (header_loop k h (ix, lg))) i =
    (if k \<le> i \<and> i < k + length h \<and> length (h ! (i - k)) > 1 \<and> take 2 (h ! (i - k)) = ''t_''
     then Some (drop 2 (h ! (i - k))) else tagIndices ix i)"
proof (induction h arbitrary: k ix lg)
  case Nil
  then show ?case by auto
next
  case (Cons v vs)
  obtain ix' lg' where st: "header_col k v (ix, lg) = (ix', lg')" by (cases "header_col k v (ix, lg)")
  have t: "tagIndices ix' = (if length v > 1 \<and> take 2 v = ''t_'' then (tagIndices ix)(k \<mapsto> drop 2 v) else tagIndices ix)"
    using st by (auto simp: header_col_def split: if_splits)
  show ?case
  proof (cases "i = k")
    case True
    then show ?thesis using Cons.IH[of "Suc k" ix' lg'] st t by simp
  next
    case False
    then show ?thesis using Cons.IH[of "Suc k" ix' lg'] st t
      by (auto simp: nth_Cons' Suc_diff_le)
  qed
qed

lemma header_loop_fieldIndices:
  "fieldIndices (fst (header_loop k h (ix, lg))) i =
    (if k \<le> i \<and> i < k + length h \<and> \<not> (length (h ! (i - k)) > 1 \<and> take 2 (h ! (i - k)) = ''t_'')
        \<and> length (h ! (i - k)) > 1 \<and> take 2 (h ! (i - k)) = ''f_''
     then Some (drop 2 (h ! (i - k))) else fieldIndices ix i)"
proof (induction h arbitrary: k ix lg)
  case Nil
  then show ?case by auto
next
  case (Cons v vs)
  obtain ix' lg' where st: "header_col k v (ix, lg) = (ix', lg')" by (cases "header_col k v (ix, lg)")
  have t: "fieldIndices ix' = (if \<not> (length v > 1 \<and> take 2 v = ''t_'') \<and> length v > 1 \<and> take 2 v = ''f_'' then (fieldIndices ix)(k \<mapsto> drop 2 v) else fieldIndices ix)"
    using st by (auto simp: header_col_def split: if_splits)
  show ?case
  proof (cases "i = k")
    case True
    then show ?thesis using Cons.IH[of "Suc k" ix' lg'] st t by simp
  next
    case False
    then show ?thesis using Cons.IH[of "Suc k" ix' lg'] st t
      by (auto simp: nth_Cons' Suc_diff_le)
  qed
qed

lemma header_loop_indexed: "indexed h (fst (header_loop 0 h (noIndices, lg)))"
  unfolding indexed_def
  by (auto simp: header_loop_tagIndices header_loop_fieldIndices noIndices_def)

lemma cell_get:
  assumes "indexed h ix" and "i < length h"
  shows "get s (fst (cell h ix i v (p, lg))) = (if slot_of (h ! i) = Some s then Some v else get s p)"
proof -
  have t: "tagIndices ix i = (if length (h ! i) > 1 \<and> take 2 (h ! i) = ''t_'' then Some (drop 2 (h ! i)) else None)"
    using assms by (simp add: indexed_def)
  have f: "fieldIndices ix i = (if length (h ! i) > 1 \<and> take 2 (h ! i) = ''f_'' then Some (drop 2 (h ! i)) else None)"
    using assms by (simp add: indexed_def)
  show ?thesis
    by (cases s) (auto simp: cell_def slot_of_def t f requiredFields_def optionalFields_def)
qed

lemma cell_log_free:
  "fst (cell h ix i v (p, lg)) = fst (cell h ix i v (p, lg'))"
  by (simp add: cell_def split: option.splits)

lemma writes_Cons:
  "writes s (c # cs) (v # vs) = (if v \<noteq> [] \<and> slot_of c = Some s then [v] else []) @ writes s cs vs"
  by (simp add: writes_def)

lemma writes_Nil [simp]: "writes s cs [] = []"
  by (simp add: writes_def)

lemma cells_loop_get:
  assumes "indexed h ix"
  shows "i + length vs \<le> length h \<Longrightarrow>
    \<exists>p'. fst (cells_loop h ix i vs (p, lg)) = Inr p' \<and>
      (\<forall>s. get s p' = (if writes s (drop i h) vs = [] then get s p else Some (last (writes s (drop i h) vs))))"
proof (induction vs arbitrary: i p lg)
  case Nil
  then show ?case by simp
next
  case (Cons v vs)
  then have i: "i < length h" and le: "Suc i + length vs \<le> length h" by simp_all
  have d: "drop i h = h ! i # drop (Suc i) h" using i by (simp add: Cons_nth_drop_Suc)
  show ?case
  proof (cases "v = []")
    case True
    from Cons.IH[OF le, of p lg] obtain p' where
      r: "fst (cells_loop h ix (Suc i) vs (p, lg)) = Inr p'" and
      s: "\<And>s. get s p' = (if writes s (drop (Suc i) h) vs = [] then get s p else Some (last (writes s (drop (Suc i) h) vs)))"
      by blast
    show ?thesis using True r s by (simp add: d writes_Cons)
  next
    case False
    obtain q lg' where c: "cell h ix i v (p, lg) = (q, lg')" by (cases "cell h ix i v (p, lg)")
    have g: "\<And>s. get s q = (if slot_of (h ! i) = Some s then Some v else get s p)"
      using cell_get[OF assms i, of _ v p lg] c by simp
    from Cons.IH[OF le, of q lg'] obtain p' where
      r: "fst (cells_loop h ix (Suc i) vs (q, lg')) = Inr p'" and
      s: "\<And>s. get s p' = (if writes s (drop (Suc i) h) vs = [] then get s q else Some (last (writes s (drop (Suc i) h) vs)))"
      by blast
    show ?thesis using False i c r s g by (simp add: d writes_Cons)
  qed
qed


lemma writes_nonempty: "v \<in> set (writes s h r) \<Longrightarrow> v \<noteq> []"
  by (auto simp: writes_def)

lemma last_writes_nonempty: "writes s h r \<noteq> [] \<Longrightarrow> last (writes s h r) \<noteq> []"
  using writes_nonempty[of "last (writes s h r)" s h r] by simp

lemma get_defaultFilter:
  "get s (defaultFilter p) =
    (if s = S_target \<and> Filter (Filterable p) = [] then Some ''all'' else get s p)"
  by (cases s; cases "Filterable p") (auto simp: defaultFilter_def EmptyFilterable_def AllFilterable_def)

lemma row_get_cells:
  assumes "indexed h ix" and "length r \<le> length h"
  shows "\<exists>p'. fst (cells_loop h ix 0 r (newPrintable, lg)) = Inr p' \<and>
    (\<forall>s. get s (defaultFilter p') = row_get h r s)"
proof -
  from cells_loop_get[OF assms(1), of 0 r newPrintable lg] assms(2) obtain p' where
    r: "fst (cells_loop h ix 0 r (newPrintable, lg)) = Inr p'" and
    g: "\<And>s. get s p' = (if writes s h r = [] then get s newPrintable else Some (last (writes s h r)))"
    by auto
  have "get s (defaultFilter p') = row_get h r s" for s
    using g[of s] g[of S_target] last_writes_nonempty[of S_target h r]
    by (cases s) (auto simp: get_defaultFilter row_get_def newPrintable_def)
  then show ?thesis using r by blast
qed

lemma rows_loop_get:
  assumes "indexed h ix"
  shows "\<forall>r\<in>set rs. length r \<le> length h \<Longrightarrow>
    \<exists>qs. fst (rows_loop h ix rs (ps, lg)) = Inr (ps @ qs) \<and>
      list_all2 (\<lambda>r q. \<forall>s. get s q = row_get h r s) rs qs"
proof (induction rs arbitrary: ps lg)
  case Nil
  then show ?case by simp
next
  case (Cons r rs)
  then have len: "length r \<le> length h" and rest: "\<forall>r\<in>set rs. length r \<le> length h" by simp_all
  from row_get_cells[OF assms len, of lg] obtain p' where
    c: "fst (cells_loop h ix 0 r (newPrintable, lg)) = Inr p'" and
    g: "\<forall>s. get s (defaultFilter p') = row_get h r s" by blast
  obtain lg' where c': "cells_loop h ix 0 r (newPrintable, lg) = (Inr p', lg')"
    using c by (cases "cells_loop h ix 0 r (newPrintable, lg)") simp
  from Cons.IH[OF rest, of "ps @ [defaultFilter p']" lg'] obtain qs where
    q: "fst (rows_loop h ix rs (ps @ [defaultFilter p'], lg')) = Inr ((ps @ [defaultFilter p']) @ qs)" and
    a: "list_all2 (\<lambda>r q. \<forall>s. get s q = row_get h r s) rs qs" by blast
  have "fst (rows_loop h ix (r # rs) (ps, lg)) = Inr (ps @ (defaultFilter p' # qs))"
    using c' q by simp
  moreover have "list_all2 (\<lambda>r q. \<forall>s. get s q = row_get h r s) (r # rs) (defaultFilter p' # qs)"
    using g a by simp
  ultimately show ?case by blast
qed

lemma parseFile_rows:
  assumes "helper_Contains h requiredFields" and "\<forall>r\<in>set rest. length r \<le> length h"
  shows "\<exists>ps. fst (parseFile filename (ReadAll_ok (h # rest))) = Inr ps \<and>
    list_all2 (\<lambda>r q. \<forall>s. get s q = row_get h r s) rest ps"
proof -
  obtain ix lg where hl: "header_loop 0 h (noIndices, []) = (ix, lg)"
    by (cases "header_loop 0 h (noIndices, [])")
  have "indexed h ix" using header_loop_indexed[of h "[]"] hl by simp
  from rows_loop_get[OF this assms(2), of "[]" lg] show ?thesis
    using assms(1) hl by (simp add: parseFile_def)
qed

lemma slot_of_table: "slot_of c = Some S_table \<longleftrightarrow> c = ''table''"
  by (simp add: slot_of_def)

lemma slot_of_time: "slot_of c = Some S_time \<longleftrightarrow> c = ''time''"
  by (simp add: slot_of_def)

lemma slot_of_target: "slot_of c = Some S_target \<longleftrightarrow> c = ''target''"
  by (simp add: slot_of_def)

lemma slot_of_tag: "slot_of c = Some (S_tag n) \<longleftrightarrow> c = ''t_'' @ n"
proof
  assume "slot_of c = Some (S_tag n)"
  then have "take 2 c = ''t_''" and "drop 2 c = n"
    by (auto simp: slot_of_def split: if_splits)
  then show "c = ''t_'' @ n" using append_take_drop_id[of 2 c] by simp
next
  assume "c = ''t_'' @ n"
  then show "slot_of c = Some (S_tag n)" by (simp add: slot_of_def)
qed

lemma slot_of_field: "slot_of c = Some (S_field n) \<longleftrightarrow> c = ''f_'' @ n"
proof
  assume "slot_of c = Some (S_field n)"
  then have "take 2 c = ''f_''" and "drop 2 c = n"
    by (auto simp: slot_of_def split: if_splits)
  then show "c = ''f_'' @ n" using append_take_drop_id[of 2 c] by simp
next
  assume "c = ''f_'' @ n"
  then show "slot_of c = Some (S_field n)" by (simp add: slot_of_def)
qed

lemma slot_of_inj: "slot_of a = Some s \<Longrightarrow> slot_of b = Some s \<Longrightarrow> a = b"
  by (cases s) (simp_all add: slot_of_table slot_of_time slot_of_target slot_of_tag slot_of_field)

lemma set_writes:
  "length r = length h \<Longrightarrow>
    set (writes s h r) = {r ! c | c. c < length h \<and> r ! c \<noteq> [] \<and> slot_of (h ! c) = Some s}"
proof (intro set_eqI iffI)
  fix v assume "v \<in> set (writes s h r)"
  then obtain a where "(a, v) \<in> set (zip h r)" and "v \<noteq> []" and "slot_of a = Some s"
    by (auto simp: writes_def)
  then show "v \<in> {r ! c | c. c < length h \<and> r ! c \<noteq> [] \<and> slot_of (h ! c) = Some s}"
    by (auto simp: set_zip)
next
  assume len: "length r = length h"
  fix v assume "v \<in> {r ! c | c. c < length h \<and> r ! c \<noteq> [] \<and> slot_of (h ! c) = Some s}"
  then obtain c where c: "c < length h" "v = r ! c" "r ! c \<noteq> []" "slot_of (h ! c) = Some s"
    by blast
  then have "(h ! c, v) \<in> set (zip h r)" using len by (auto simp: set_zip)
  then have "(h ! c, v) \<in> set (filter (\<lambda>cv. snd cv \<noteq> [] \<and> slot_of (fst cv) = Some s) (zip h r))"
    using c by simp
  then have "snd (h ! c, v) \<in> snd ` set (filter (\<lambda>cv. snd cv \<noteq> [] \<and> slot_of (fst cv) = Some s) (zip h r))"
    by (rule imageI)
  then show "v \<in> set (writes s h r)" by (simp add: writes_def)
qed

lemma writes_absent: "\<forall>c\<in>set h. slot_of c \<noteq> Some s \<Longrightarrow> writes s h r = []"
proof -
  assume a: "\<forall>c\<in>set h. slot_of c \<noteq> Some s"
  have "slot_of (fst cv) \<noteq> Some s" if "cv \<in> set (zip h r)" for cv
  proof -
    have "(fst cv, snd cv) \<in> set (zip h r)" using that by simp
    then have "fst cv \<in> set h" by (rule set_zip_leftD)
    then show ?thesis using a by blast
  qed
  then show ?thesis by (simp add: writes_def filter_empty_conv)
qed

lemma writes_distinct:
  "distinct h \<Longrightarrow> length r = length h \<Longrightarrow> c < length h \<Longrightarrow> slot_of (h ! c) = Some s \<Longrightarrow>
    writes s h r = (if r ! c \<noteq> [] then [r ! c] else [])"
proof (induction h arbitrary: r c)
  case Nil
  then show ?case by simp
next
  case (Cons a h)
  then obtain v vs where r: "r = v # vs" by (cases r) auto
  show ?case
  proof (cases c)
    case 0
    have a: "slot_of a = Some s" and n: "a \<notin> set h" using Cons.prems 0 by simp_all
    have "\<forall>x\<in>set h. slot_of x \<noteq> Some s"
    proof
      fix x assume x: "x \<in> set h"
      show "slot_of x \<noteq> Some s"
      proof
        assume "slot_of x = Some s"
        then have "a = x" using a by (rule slot_of_inj[rotated])
        then show False using x n by simp
      qed
    qed
    then have "writes s h vs = []" by (rule writes_absent)
    then show ?thesis using 0 Cons.prems r by (simp add: writes_Cons)
  next
    case (Suc d)
    have d: "d < length h" and hd: "slot_of (h ! d) = Some s" and n: "a \<notin> set h"
      using Cons.prems Suc by simp_all
    have "slot_of a \<noteq> Some s"
    proof
      assume "slot_of a = Some s"
      then have "a = h ! d" using hd by (rule slot_of_inj)
      then show False using n d by simp
    qed
    moreover have "writes s h vs = (if vs ! d \<noteq> [] then [vs ! d] else [])"
      using Cons.IH[of vs d] Cons.prems r d hd by simp
    ultimately show ?thesis using Suc r by (simp add: writes_Cons)
  qed
qed


lemma row_get_present:
  assumes "distinct h" and "length r = length h" and "c < length h" and "slot_of (h ! c) = Some s"
  shows "row_get h r s = (if r ! c \<noteq> [] then Some (r ! c) else slot_default s)"
  using writes_distinct[OF assms] by (simp add: row_get_def)

lemma row_get_absent:
  assumes "\<forall>c\<in>set h. slot_of c \<noteq> Some s"
  shows "row_get h r s = slot_default s"
  using writes_absent[OF assms] by (simp add: row_get_def)

lemma row_get_written:
  assumes "length r = length h" and "row_get h r s \<noteq> slot_default s"
  shows "\<exists>c<length h. slot_of (h ! c) = Some s \<and> r ! c \<noteq> [] \<and> row_get h r s = Some (r ! c)"
proof -
  have ne: "writes s h r \<noteq> []" using assms(2) by (auto simp: row_get_def)
  then have "last (writes s h r) \<in> set (writes s h r)" by simp
  then obtain c where "c < length h" "r ! c \<noteq> []" "slot_of (h ! c) = Some s"
      "last (writes s h r) = r ! c"
    unfolding set_writes[OF assms(1)] by auto
  then show ?thesis using ne by (auto simp: row_get_def)
qed

lemma row_get_some_write:
  assumes "length r = length h" and "c < length h" and "slot_of (h ! c) = Some s" and "r ! c \<noteq> []"
  shows "\<exists>d<length h. slot_of (h ! d) = Some s \<and> r ! d \<noteq> [] \<and> row_get h r s = Some (r ! d)"
proof -
  have "r ! c \<in> set (writes s h r)" unfolding set_writes[OF assms(1)] using assms by blast
  then have ne: "writes s h r \<noteq> []" by auto
  then have "last (writes s h r) \<in> set (writes s h r)" by simp
  then obtain d where "d < length h" "r ! d \<noteq> []" "slot_of (h ! d) = Some s"
      "last (writes s h r) = r ! d"
    unfolding set_writes[OF assms(1)] by auto
  then show ?thesis using ne by (auto simp: row_get_def)
qed

lemma helper_Contains_required:
  "helper_Contains h requiredFields \<longleftrightarrow> ''table'' \<in> set h \<and> ''time'' \<in> set h"
  by (simp add: helper_Contains_def requiredFields_def)

lemma parseFile_happy:
  "parseFile filename (ReadAll_ok [happy_header, happy_row]) = (Inr [happy_record], [])"
  by (simp add: parseFile_def helper_Contains_def requiredFields_def optionalFields_def
      header_col_def noIndices_def cell_def newPrintable_def defaultFilter_def
      EmptyFilterable_def AllFilterable_def happy_header_def happy_row_def happy_record_def)

lemma parseFile_nameless:
  "parseFile filename (ReadAll_ok nameless_rows) =
    (Inr [\<lparr>Filterable = \<lparr>Filter = ''all''\<rparr>, Table = '''', Timestamp = ''soon'',
           tags = ['''' \<mapsto> ''x''], fields' = ['''' \<mapsto> ''y'']\<rparr>], [])"
  by (simp add: parseFile_def helper_Contains_def requiredFields_def optionalFields_def
      header_col_def noIndices_def cell_def newPrintable_def defaultFilter_def
      EmptyFilterable_def AllFilterable_def nameless_rows_def)

text \<open>
  C10. \<open>parseFile\<close> is not total: on a file that opens and whose CSV parse gives no row at
  all, \<open>records[0]\<close> at line 103 is out of range, and the function panics instead of
  returning the empty list of records.
\<close>

theorem parseFile_no_rows_panics:
  "parseFile filename (ReadAll_ok []) = (Inl (Index_out_of_range 0 0), [])"
  by (simp add: parseFile_def)

text \<open>
  C8. When the header row lacks the column \<open>table\<close> or the column \<open>time\<close>, \<open>parseFile\<close>
  logs one warning, naming the file and the required fields, and returns no record; the
  collector then offers nothing of that file to any result queue.
\<close>

theorem parseFile_missing_required:
  assumes "''table'' \<notin> set h \<or> ''time'' \<notin> set h"
  shows "parseFile filename (ReadAll_ok (h # rest)) =
           (Inr [], [Warn_missing_fields filename [''table'', ''time'']]) \<and>
         (files w filename = Some (ReadAll_ok (h # rest)) \<longrightarrow>
            results (snd (run_file sel filename w)) = results w)"
proof -
  have n: "\<not> helper_Contains h requiredFields"
    using assms by (simp add: helper_Contains_required)
  then have p: "parseFile filename (ReadAll_ok (h # rest)) =
      (Inr [], [Warn_missing_fields filename [''table'', ''time'']])"
    by (simp add: parseFile_def requiredFields_def)
  have "results (snd (run_file sel filename w)) = results w"
    if "files w filename = Some (ReadAll_ok (h # rest))"
    using that p by (simp add: run_file_def os_Open_def os_Remove_def)
  then show ?thesis using p by blast
qed

theorem parseFile_missing_required_witness:
  "''time'' \<notin> set [''table'', ''t_host''] \<and>
   parseFile ''drop/load.csv'' (ReadAll_ok [[''table'', ''t_host''], [''cpu'', ''srvA'']]) =
     (Inr [], [Warn_missing_fields ''drop/load.csv'' [''table'', ''time'']])"
  using parseFile_missing_required[of "[''table'', ''t_host'']" "''drop/load.csv''" "[[''cpu'', ''srvA'']]"]
  by simp

text \<open>
  C5. The file of the first scenario gives exactly the one record of the scenario. In
  general, for a header whose column names are distinct and that has \<open>table\<close> and \<open>time\<close>,
  and rows as long as the header: there is one record for each row after the header, in
  order; its table, timestamp and filter are the row's cells under \<open>table\<close>, \<open>time\<close> and
  \<open>target\<close>, its tag \<open>n\<close> is the cell under \<open>t_n\<close> and its field \<open>n\<close> the cell under
  \<open>f_n\<close>; an empty cell leaves the tag or field out, and a \<open>target\<close> cell that is empty,
  or no \<open>target\<close> column, gives the filter \<open>all\<close>.
\<close>

theorem parseFile_maps_columns:
  "parseFile filename (ReadAll_ok [happy_header, happy_row]) = (Inr [happy_record], []) \<and>
   (distinct h \<and> ''table'' \<in> set h \<and> ''time'' \<in> set h \<and> (\<forall>r\<in>set rest. length r = length h) \<longrightarrow>
     (\<exists>ps. fst (parseFile filename (ReadAll_ok (h # rest))) = Inr ps \<and> length ps = length rest \<and>
       (\<forall>k<length rest. \<forall>c<length h.
          (h ! c = ''table'' \<longrightarrow> Table (ps ! k) = rest ! k ! c) \<and>
          (h ! c = ''time'' \<longrightarrow> Timestamp (ps ! k) = rest ! k ! c) \<and>
          (h ! c = ''target'' \<longrightarrow>
             Filter (Filterable (ps ! k)) = (if rest ! k ! c = [] then ''all'' else rest ! k ! c)) \<and>
          (\<forall>n. h ! c = ''t_'' @ n \<longrightarrow>
             tags (ps ! k) n = (if rest ! k ! c = [] then None else Some (rest ! k ! c))) \<and>
          (\<forall>n. h ! c = ''f_'' @ n \<longrightarrow>
             fields' (ps ! k) n = (if rest ! k ! c = [] then None else Some (rest ! k ! c)))) \<and>
       (\<forall>k<length rest.
          (''target'' \<notin> set h \<longrightarrow> Filter (Filterable (ps ! k)) = ''all'') \<and>
          (\<forall>n. ''t_'' @ n \<notin> set h \<longrightarrow> tags (ps ! k) n = None) \<and>
          (\<forall>n. ''f_'' @ n \<notin> set h \<longrightarrow> fields' (ps ! k) n = None))))"
proof (intro conjI impI)
  show "parseFile filename (ReadAll_ok [happy_header, happy_row]) = (Inr [happy_record], [])"
    by (rule parseFile_happy)
next
  assume a: "distinct h \<and> ''table'' \<in> set h \<and> ''time'' \<in> set h \<and> (\<forall>r\<in>set rest. length r = length h)"
  then have d: "distinct h" and c: "helper_Contains h requiredFields"
    and len: "\<forall>r\<in>set rest. length r = length h"
    by (simp_all add: helper_Contains_required)
  from len have "\<forall>r\<in>set rest. length r \<le> length h" by simp
  from parseFile_rows[OF c this, of filename] obtain ps where
    ps: "fst (parseFile filename (ReadAll_ok (h # rest))) = Inr ps" and
    all: "list_all2 (\<lambda>r q. \<forall>s. get s q = row_get h r s) rest ps" by blast
  have l: "length ps = length rest" using all by (simp add: list_all2_lengthD)
  have g: "get s (ps ! k) = row_get h (rest ! k) s" if "k < length rest" for k s
    using list_all2_nthD[OF all that] by simp
  have rl: "length (rest ! k) = length h" if "k < length rest" for k
    using len that by simp
  have present: "get s (ps ! k) = (if rest ! k ! c \<noteq> [] then Some (rest ! k ! c) else slot_default s)"
    if "k < length rest" "c < length h" "slot_of (h ! c) = Some s" for k c s
    using g[OF that(1)] row_get_present[OF d rl[OF that(1)] that(2,3)] by simp
  have absent: "get s (ps ! k) = slot_default s"
    if "k < length rest" "\<forall>c\<in>set h. slot_of c \<noteq> Some s" for k s
    using g[OF that(1)] row_get_absent[OF that(2)] by simp
  have cols: "(h ! c = ''table'' \<longrightarrow> Table (ps ! k) = rest ! k ! c) \<and>
          (h ! c = ''time'' \<longrightarrow> Timestamp (ps ! k) = rest ! k ! c) \<and>
          (h ! c = ''target'' \<longrightarrow>
             Filter (Filterable (ps ! k)) = (if rest ! k ! c = [] then ''all'' else rest ! k ! c)) \<and>
          (\<forall>n. h ! c = ''t_'' @ n \<longrightarrow>
             tags (ps ! k) n = (if rest ! k ! c = [] then None else Some (rest ! k ! c))) \<and>
          (\<forall>n. h ! c = ''f_'' @ n \<longrightarrow>
             fields' (ps ! k) n = (if rest ! k ! c = [] then None else Some (rest ! k ! c)))"
    if k: "k < length rest" and cl: "c < length h" for k c
  proof (intro conjI impI allI)
    assume "h ! c = ''table''"
    then show "Table (ps ! k) = rest ! k ! c"
      using present[OF k cl, of S_table] by (simp add: slot_of_table split: if_splits)
  next
    assume "h ! c = ''time''"
    then show "Timestamp (ps ! k) = rest ! k ! c"
      using present[OF k cl, of S_time] by (simp add: slot_of_time split: if_splits)
  next
    assume "h ! c = ''target''"
    then show "Filter (Filterable (ps ! k)) = (if rest ! k ! c = [] then ''all'' else rest ! k ! c)"
      using present[OF k cl, of S_target] by (simp add: slot_of_target split: if_splits)
  next
    fix n assume "h ! c = ''t_'' @ n"
    then show "tags (ps ! k) n = (if rest ! k ! c = [] then None else Some (rest ! k ! c))"
      using present[OF k cl, of "S_tag n"] by (simp add: slot_of_tag split: if_splits)
  next
    fix n assume "h ! c = ''f_'' @ n"
    then show "fields' (ps ! k) n = (if rest ! k ! c = [] then None else Some (rest ! k ! c))"
      using present[OF k cl, of "S_field n"] by (simp add: slot_of_field split: if_splits)
  qed
  have none: "(''target'' \<notin> set h \<longrightarrow> Filter (Filterable (ps ! k)) = ''all'') \<and>
          (\<forall>n. ''t_'' @ n \<notin> set h \<longrightarrow> tags (ps ! k) n = None) \<and>
          (\<forall>n. ''f_'' @ n \<notin> set h \<longrightarrow> fields' (ps ! k) n = None)"
    if k: "k < length rest" for k
  proof (intro conjI impI allI)
    assume "''target'' \<notin> set h"
    then have "\<forall>c\<in>set h. slot_of c \<noteq> Some S_target" by (auto simp: slot_of_target)
    from absent[OF k this] show "Filter (Filterable (ps ! k)) = ''all''" by simp
  next
    fix n assume "''t_'' @ n \<notin> set h"
    then have "\<forall>c\<in>set h. slot_of c \<noteq> Some (S_tag n)" by (auto simp: slot_of_tag)
    from absent[OF k this] show "tags (ps ! k) n = None" by simp
  next
    fix n assume "''f_'' @ n \<notin> set h"
    then have "\<forall>c\<in>set h. slot_of c \<noteq> Some (S_field n)" by (auto simp: slot_of_field)
    from absent[OF k this] show "fields' (ps ! k) n = None" by simp
  qed
  show "\<exists>ps. fst (parseFile filename (ReadAll_ok (h # rest))) = Inr ps \<and> length ps = length rest \<and>
       (\<forall>k<length rest. \<forall>c<length h.
          (h ! c = ''table'' \<longrightarrow> Table (ps ! k) = rest ! k ! c) \<and>
          (h ! c = ''time'' \<longrightarrow> Timestamp (ps ! k) = rest ! k ! c) \<and>
          (h ! c = ''target'' \<longrightarrow>
             Filter (Filterable (ps ! k)) = (if rest ! k ! c = [] then ''all'' else rest ! k ! c)) \<and>
          (\<forall>n. h ! c = ''t_'' @ n \<longrightarrow>
             tags (ps ! k) n = (if rest ! k ! c = [] then None else Some (rest ! k ! c))) \<and>
          (\<forall>n. h ! c = ''f_'' @ n \<longrightarrow>
             fields' (ps ! k) n = (if rest ! k ! c = [] then None else Some (rest ! k ! c)))) \<and>
       (\<forall>k<length rest.
          (''target'' \<notin> set h \<longrightarrow> Filter (Filterable (ps ! k)) = ''all'') \<and>
          (\<forall>n. ''t_'' @ n \<notin> set h \<longrightarrow> tags (ps ! k) n = None) \<and>
          (\<forall>n. ''f_'' @ n \<notin> set h \<longrightarrow> fields' (ps ! k) n = None))"
    using ps l cols none by blast
qed

theorem parseFile_maps_columns_witness:
  "distinct happy_header \<and> ''table'' \<in> set happy_header \<and> ''time'' \<in> set happy_header \<and>
   length happy_row = length happy_header \<and>
   (\<exists>ps. fst (parseFile ''drop/cpu.csv'' (ReadAll_ok [happy_header, happy_row])) = Inr ps \<and>
      length ps = 1 \<and> Table (ps ! 0) = ''cpu'' \<and> Timestamp (ps ! 0) = ''1700000000000'' \<and>
      Filter (Filterable (ps ! 0)) = ''all'' \<and> tags (ps ! 0) ''host'' = Some ''srvA'' \<and>
      fields' (ps ! 0) ''value'' = Some ''0.42'' \<and> tags (ps ! 0) ''value'' = None)"
proof -
  have hyp: "distinct happy_header \<and> ''table'' \<in> set happy_header \<and> ''time'' \<in> set happy_header \<and>
      (\<forall>r\<in>set [happy_row]. length r = length happy_header)"
    by (simp add: happy_header_def happy_row_def)
  note general = parseFile_maps_columns[where filename = "''drop/cpu.csv''" and h = happy_header
        and rest = "[happy_row]", THEN conjunct2, THEN mp, OF hyp]
  then obtain ps where q:
    "fst (parseFile ''drop/cpu.csv'' (ReadAll_ok (happy_header # [happy_row]))) = Inr ps \<and>
       length ps = length [happy_row] \<and>
       (\<forall>k<length [happy_row]. \<forall>c<length happy_header.
          (happy_header ! c = ''table'' \<longrightarrow> Table (ps ! k) = [happy_row] ! k ! c) \<and>
          (happy_header ! c = ''time'' \<longrightarrow> Timestamp (ps ! k) = [happy_row] ! k ! c) \<and>
          (happy_header ! c = ''target'' \<longrightarrow>
             Filter (Filterable (ps ! k)) =
               (if [happy_row] ! k ! c = [] then ''all'' else [happy_row] ! k ! c)) \<and>
          (\<forall>n. happy_header ! c = ''t_'' @ n \<longrightarrow>
             tags (ps ! k) n = (if [happy_row] ! k ! c = [] then None else Some ([happy_row] ! k ! c))) \<and>
          (\<forall>n. happy_header ! c = ''f_'' @ n \<longrightarrow>
             fields' (ps ! k) n = (if [happy_row] ! k ! c = [] then None else Some ([happy_row] ! k ! c)))) \<and>
       (\<forall>k<length [happy_row].
          (''target'' \<notin> set happy_header \<longrightarrow> Filter (Filterable (ps ! k)) = ''all'') \<and>
          (\<forall>n. ''t_'' @ n \<notin> set happy_header \<longrightarrow> tags (ps ! k) n = None) \<and>
          (\<forall>n. ''f_'' @ n \<notin> set happy_header \<longrightarrow> fields' (ps ! k) n = None))" ..
  note ps = q[THEN conjunct1]
  note len = q[THEN conjunct2, THEN conjunct1]
  note cols = q[THEN conjunct2, THEN conjunct2, THEN conjunct1, rule_format]
  note none = q[THEN conjunct2, THEN conjunct2, THEN conjunct2, rule_format]
  have k: "0 < length [happy_row]" by simp
  have h0: "happy_header ! 0 = ''table''" and h1: "happy_header ! 1 = ''time''"
    and h2: "happy_header ! 2 = ''target''" and h3: "happy_header ! 3 = ''t_'' @ ''host''"
    and h4: "happy_header ! 4 = ''f_'' @ ''value''"
    and c: "0 < length happy_header" "1 < length happy_header" "2 < length happy_header"
      "3 < length happy_header" "4 < length happy_header"
    by (simp_all add: happy_header_def)
  have r: "[happy_row] ! 0 ! 0 = ''cpu''" "[happy_row] ! 0 ! 1 = ''1700000000000''"
    "[happy_row] ! 0 ! 2 = ''all''" "[happy_row] ! 0 ! 3 = ''srvA''" "[happy_row] ! 0 ! 4 = ''0.42''"
    by (simp_all add: happy_row_def)
  have n: "''t_'' @ ''value'' \<notin> set happy_header" by (simp add: happy_header_def)
  have "Table (ps ! 0) = ''cpu''"
    using cols[OF k c(1), THEN conjunct1, rule_format, OF h0] r(1) by simp
  moreover have "Timestamp (ps ! 0) = ''1700000000000''"
    using cols[OF k c(2), THEN conjunct2, THEN conjunct1, rule_format, OF h1] r(2) by simp
  moreover have "Filter (Filterable (ps ! 0)) = ''all''"
    using cols[OF k c(3), THEN conjunct2, THEN conjunct2, THEN conjunct1, rule_format, OF h2] r(3)
    by simp
  moreover have "tags (ps ! 0) ''host'' = Some ''srvA''"
    using cols[OF k c(4), THEN conjunct2, THEN conjunct2, THEN conjunct2, THEN conjunct1,
        rule_format, OF h3] r(4)
    by simp
  moreover have "fields' (ps ! 0) ''value'' = Some ''0.42''"
    using cols[OF k c(5), THEN conjunct2, THEN conjunct2, THEN conjunct2, THEN conjunct2,
        rule_format, OF h4] r(5)
    by simp
  moreover have "tags (ps ! 0) ''value'' = None"
    using none[OF k, THEN conjunct2, THEN conjunct1, rule_format, OF n] .
  moreover have "length ps = 1" using len by simp
  moreover have "length happy_row = length happy_header"
    by (simp add: happy_header_def happy_row_def)
  ultimately show ?thesis using hyp ps by simp
qed

text \<open>
  C4, as stated, fails. \<open>parseFile\<close> checks no cell and no name after the prefix: from a row
  with an empty cell under \<open>table\<close>, the text \<open>soon\<close> under \<open>time\<close>, and cells under columns
  named \<open>t_\<close> and \<open>f_\<close>, it makes a record with an empty table, the timestamp \<open>soon\<close>, and
  the empty key in both maps.
\<close>

theorem parseFile_invariants_counterexample:
  "\<not> isl (fst (parseFile ''drop/x.csv'' (ReadAll_ok nameless_rows))) \<and>
   length (projr (fst (parseFile ''drop/x.csv'' (ReadAll_ok nameless_rows)))) = 1 \<and>
   Table (hd (projr (fst (parseFile ''drop/x.csv'' (ReadAll_ok nameless_rows))))) = [] \<and>
   Timestamp (hd (projr (fst (parseFile ''drop/x.csv'' (ReadAll_ok nameless_rows))))) = ''soon'' \<and>
   \<not> decimal_text ''soon'' \<and>
   tags (hd (projr (fst (parseFile ''drop/x.csv'' (ReadAll_ok nameless_rows))))) [] = Some ''x'' \<and>
   fields' (hd (projr (fst (parseFile ''drop/x.csv'' (ReadAll_ok nameless_rows))))) [] = Some ''y''"
  by (simp add: parseFile_nameless decimal_text_def)

text \<open>
  C4, amended. The invariants hold of every record when the input has them: for a header
  with \<open>table\<close> and \<open>time\<close> and without a column named just \<open>t_\<close> or \<open>f_\<close>, and rows as
  long as the header in which every cell under \<open>table\<close> is not empty and every cell under
  \<open>time\<close> is not empty and numeric, each record has a table that is not empty, a numeric
  timestamp, and no empty key among its tags and fields. \<open>numeric\<close> is any property of
  texts, such as \<open>decimal_text\<close>.
\<close>

theorem parseFile_invariants_of_clean_input:
  assumes "''table'' \<in> set h" and "''time'' \<in> set h" and "''t_'' \<notin> set h" and "''f_'' \<notin> set h"
    and "\<forall>r\<in>set rest. length r = length h \<and>
           (\<forall>c<length h. (h ! c = ''table'' \<longrightarrow> r ! c \<noteq> []) \<and>
                         (h ! c = ''time'' \<longrightarrow> r ! c \<noteq> [] \<and> numeric (r ! c)))"
  shows "\<exists>ps. fst (parseFile filename (ReadAll_ok (h # rest))) = Inr ps \<and> length ps = length rest \<and>
           (\<forall>p\<in>set ps. Table p \<noteq> [] \<and> numeric (Timestamp p) \<and> tags p [] = None \<and> fields' p [] = None)"
proof -
  have c: "helper_Contains h requiredFields" using assms(1,2) by (simp add: helper_Contains_required)
  have "\<forall>r\<in>set rest. length r \<le> length h" using assms(5) by simp
  from parseFile_rows[OF c this, of filename] obtain ps where
    ps: "fst (parseFile filename (ReadAll_ok (h # rest))) = Inr ps" and
    all: "list_all2 (\<lambda>r q. \<forall>s. get s q = row_get h r s) rest ps" by blast
  have l: "length ps = length rest" using all by (simp add: list_all2_lengthD)
  obtain ct where ct: "ct < length h" "h ! ct = ''table''"
    using assms(1) by (auto simp: in_set_conv_nth)
  obtain cm where cm: "cm < length h" "h ! cm = ''time''"
    using assms(2) by (auto simp: in_set_conv_nth)
  have "Table p \<noteq> [] \<and> numeric (Timestamp p) \<and> tags p [] = None \<and> fields' p [] = None"
    if "p \<in> set ps" for p
  proof -
    from that obtain k where k: "k < length rest" and p: "p = ps ! k"
      using l by (auto simp: in_set_conv_nth)
    define r where "r = rest ! k"
    have rin: "r \<in> set rest" using k by (simp add: r_def)
    have rl: "length r = length h" using assms(5) rin by blast
    have cells: "\<And>c. c < length h \<Longrightarrow> (h ! c = ''table'' \<longrightarrow> r ! c \<noteq> []) \<and>
                         (h ! c = ''time'' \<longrightarrow> r ! c \<noteq> [] \<and> numeric (r ! c))"
      using assms(5) rin by blast
    have g: "\<And>s. get s p = row_get h r s"
      using list_all2_nthD[OF all k] by (simp add: p r_def)
    have "r ! ct \<noteq> []" using cells[OF ct(1)] ct(2) by simp
    from row_get_some_write[OF rl ct(1) _ this, of S_table] ct(2)
    obtain d where "d < length h" "slot_of (h ! d) = Some S_table" "r ! d \<noteq> []"
        "row_get h r S_table = Some (r ! d)"
      by (auto simp: slot_of_table)
    then have t: "Table p \<noteq> []" using g[of S_table] by simp
    have "r ! cm \<noteq> []" using cells[OF cm(1)] cm(2) by simp
    from row_get_some_write[OF rl cm(1) _ this, of S_time] cm(2)
    obtain e where e: "e < length h" "slot_of (h ! e) = Some S_time"
        "row_get h r S_time = Some (r ! e)"
      by (auto simp: slot_of_time)
    then have "numeric (r ! e)" using cells[OF e(1)] by (simp add: slot_of_time)
    then have m: "numeric (Timestamp p)" using g[of S_time] e(3) by simp
    have "\<forall>c\<in>set h. slot_of c \<noteq> Some (S_tag [])" using assms(3) by (auto simp: slot_of_tag)
    then have a: "tags p [] = None" using g[of "S_tag []"] row_get_absent[of h "S_tag []" r] by simp
    have "\<forall>c\<in>set h. slot_of c \<noteq> Some (S_field [])" using assms(4) by (auto simp: slot_of_field)
    then have f: "fields' p [] = None" using g[of "S_field []"] row_get_absent[of h "S_field []" r] by simp
    show ?thesis using t m a f by simp
  qed
  then show ?thesis using ps l by blast
qed

lemma less_5_cases: "(c::nat) < 5 \<Longrightarrow> c = 0 \<or> c = 1 \<or> c = 2 \<or> c = 3 \<or> c = 4"
  by arith

theorem parseFile_invariants_of_clean_input_witness:
  "''table'' \<in> set happy_header \<and> ''time'' \<in> set happy_header \<and>
   ''t_'' \<notin> set happy_header \<and> ''f_'' \<notin> set happy_header \<and>
   length happy_row = length happy_header \<and> happy_row ! 0 \<noteq> [] \<and> decimal_text (happy_row ! 1) \<and>
   (\<exists>ps. fst (parseFile ''drop/cpu.csv'' (ReadAll_ok [happy_header, happy_row])) = Inr ps \<and>
      length ps = 1 \<and> Table (ps ! 0) \<noteq> [] \<and> decimal_text (Timestamp (ps ! 0)) \<and>
      tags (ps ! 0) [] = None \<and> fields' (ps ! 0) [] = None)"
proof -
  have h: "''table'' \<in> set happy_header" "''time'' \<in> set happy_header"
      "''t_'' \<notin> set happy_header" "''f_'' \<notin> set happy_header"
    by (simp_all add: happy_header_def)
  have d: "happy_row ! 0 \<noteq> []" "decimal_text (happy_row ! 1)" "length happy_row = length happy_header"
    by (simp_all add: happy_row_def happy_header_def decimal_text_def)
  have cell: "(happy_header ! c = ''table'' \<longrightarrow> happy_row ! c \<noteq> []) \<and>
      (happy_header ! c = ''time'' \<longrightarrow> happy_row ! c \<noteq> [] \<and> decimal_text (happy_row ! c))"
    if "c < length happy_header" for c
  proof -
    have "c < 5" using that by (simp add: happy_header_def)
    then have "c = 0 \<or> c = 1 \<or> c = 2 \<or> c = 3 \<or> c = 4" by (rule less_5_cases)
    then show ?thesis
      by (elim disjE) (simp_all add: happy_header_def happy_row_def decimal_text_def)
  qed
  have rows: "\<forall>r\<in>set [happy_row]. length r = length happy_header \<and>
           (\<forall>c<length happy_header. (happy_header ! c = ''table'' \<longrightarrow> r ! c \<noteq> []) \<and>
              (happy_header ! c = ''time'' \<longrightarrow> r ! c \<noteq> [] \<and> decimal_text (r ! c)))"
    using d(3) cell by simp
  from parseFile_invariants_of_clean_input[OF h rows, of "''drop/cpu.csv''"]
  obtain ps where "fst (parseFile ''drop/cpu.csv'' (ReadAll_ok [happy_header, happy_row])) = Inr ps"
      "length ps = 1"
      "\<forall>p\<in>set ps. Table p \<noteq> [] \<and> decimal_text (Timestamp p) \<and> tags p [] = None \<and> fields' p [] = None"
    by auto
  moreover from this have "ps ! 0 \<in> set ps" by simp
  ultimately show ?thesis using h d by blast
qed

section \<open>Properties of the collectors' ticks\<close>























text \<open>
  C9. A tick that finds the pause flag set does nothing but log it: the CSV collector
  performs no select, offers no record and removes no file, the spool-file scanner performs
  no select and enqueues no job, and both components go on to their next turn.
\<close>

theorem paused_tick_enqueues_nothing:
  "FileCollector_tick sel True oldFiles w =
     (Inr Continue, w\<lparr>logged := logged w @ [Debug_msg ''NagfluxFileCollector in pause'']\<rparr>) \<and>
   results (snd (FileCollector_tick sel True oldFiles w)) = results w \<and>
   selects (snd (FileCollector_tick sel True oldFiles w)) = selects w \<and>
   files (snd (FileCollector_tick sel True oldFiles w)) = files w \<and>
   FileCollector_run sel folder (Ticker True now entries # ts) w =
     FileCollector_run sel folder ts
       (w\<lparr>logged := logged w @ [Debug_msg ''NagfluxFileCollector in pause'']\<rparr>) \<and>
   NagiosSpoolfileCollector_tick sel True spoolDirectory names s =
     (Continue, s\<lparr>scanner_logged := scanner_logged s @
        [Debug_msg ''NagiosSpoolfileCollector in pause'']\<rparr>) \<and>
   jobs (snd (NagiosSpoolfileCollector_tick sel True spoolDirectory names s)) = jobs s \<and>
   scanner_selects (snd (NagiosSpoolfileCollector_tick sel True spoolDirectory names s)) =
     scanner_selects s \<and>
   NagiosSpoolfileCollector_run sel spoolDirectory (Ticker True now entries # ts) s =
     NagiosSpoolfileCollector_run sel spoolDirectory ts
       (s\<lparr>scanner_logged := scanner_logged s @
          [Debug_msg ''NagiosSpoolfileCollector in pause'']\<rparr>)"
  by (simp add: FileCollector_tick_def NagiosSpoolfileCollector_tick_def)



section \<open>Properties of the sender worker\<close>

lemma castJobToString_line:
  "castJobToString line_worker job =
    Inr (if length job > 1 \<and> drop (length job - 1) job \<noteq> nl then job @ nl else job)"
  by (simp add: castJobToString_def line_worker_def)












lemmas worker_defs =
  sendBuffer_def sendData_def retry_pass_def waitForQuitOrGoOn_def dumpRemainingQueries_def
  readQueriesFromQueue_def dumpErrorQueries_def dumpQueries_def os_Create_def os_OpenFile_def
  WriteString_def log_worker_def count_sent_def castJobToString_def printErrors_def
  ioutil_WriteFile_def nl_def numeral_3_eq_3

lemmas example_defs =
  line_worker_def world_answering_def interrupted_world_def rejecting_world_def refusing_world_def

text \<open>
  \<open>sendData\<close> has two results, nil and \<open>errorHTTPClient\<close>: line 252 returns nil where the
  target reported errors. So the case \<open>errorBadRequest\<close> of the switch in \<open>sendBuffer\<close>,
  which posts the lines one by one, is never entered.
\<close>

lemma sendData_results:
  "fst (sendData worker rawData log w) = Inr None \<or>
   fst (sendData worker rawData log w) = Inr (Some errorHTTPClient) \<or>
   (\<exists>e. fst (sendData worker rawData log w) = Inl (Panicked e))"
  by (auto simp: sendData_def printErrors_def split: http_reply.splits)

text \<open>
  C1, at a failing input. The buffer holds \<open>q1\<close>, \<open>q2\<close> waits in the channel, no POST
  gets through, and the quit signal comes during the first wait. The buffer and the
  channel's job are appended to \<open>dump\<close>; but then line 169 posts the buffer again, and the
  two passes that are left do the same: four POSTs in all, the buffer is appended to \<open>dump\<close>
  three times, and at last to \<open>dump-errors\<close>.
\<close>

theorem sendBuffer_resends_after_quit:
  "fst (sendBuffer line_worker [''q1''] interrupted_world) = Inr () \<and>
   posts (snd (sendBuffer line_worker [''q1''] interrupted_world)) =
     [''q1'' @ nl, ''q1'' @ nl, ''q1'' @ nl, ''q1'' @ nl] \<and>
   map_option content (fs (snd (sendBuffer line_worker [''q1''] interrupted_world)) ''dump'') =
     Some (''q1'' @ nl @ ''q2'' @ nl @ ''q1'' @ nl @ ''q1'' @ nl) \<and>
   map_option content (fs (snd (sendBuffer line_worker [''q1''] interrupted_world)) ''dump-errors'') =
     Some (nl @ nl @ ''Http Client got an error'' @ nl @ ''q1'' @ nl) \<and>
   waits (snd (sendBuffer line_worker [''q1''] interrupted_world)) = 3"
  by (simp add: worker_defs example_defs)

text \<open>
  C2, at two failing inputs. A batch of three lines is answered 400 with the second item
  rejected: \<open>sendData\<close> calls \<open>printErrors\<close>, which panics; no line is posted alone and
  nothing is written to \<open>dump-errors\<close>. The same batch answered 400 without the field
  \<open>errors\<close> counts as sent: one POST, nothing in \<open>dump-errors\<close>.
\<close>

theorem sendBuffer_rejected_batch:
  "fst (sendBuffer line_worker [''l1'', ''l2'', ''l3''] rejecting_world) =
     Inl (Panicked (Explicit_panic '''')) \<and>
   posts (snd (sendBuffer line_worker [''l1'', ''l2'', ''l3''] rejecting_world)) =
     [''l1'' @ nl @ ''l2'' @ nl @ ''l3'' @ nl] \<and>
   fs (snd (sendBuffer line_worker [''l1'', ''l2'', ''l3''] rejecting_world)) ''dump-errors'' = None \<and>
   fst (sendBuffer line_worker [''l1'', ''l2'', ''l3''] refusing_world) = Inr () \<and>
   posts (snd (sendBuffer line_worker [''l1'', ''l2'', ''l3''] refusing_world)) =
     [''l1'' @ nl @ ''l2'' @ nl @ ''l3'' @ nl] \<and>
   fs (snd (sendBuffer line_worker [''l1'', ''l2'', ''l3''] refusing_world)) ''dump-errors'' = None"
  by (simp add: worker_defs example_defs)

text \<open>
  What \<open>dumpQueries\<close> does to a file that exists, when nothing is refused: the queries go
  to its end, in order, and its mode stays.
\<close>

lemma write_queries_appends:
  "fs w filename = Some f \<Longrightarrow> \<not> refused w Op_write filename \<Longrightarrow>
    fs (write_queries filename queries w) filename = Some (f\<lparr>content := content f @ concat queries\<rparr>)"
proof (induction queries arbitrary: w f)
  case Nil
  then show ?case by simp
next
  case (Cons query queries)
  define w' where "w' = w\<lparr>fs := (fs w)(filename \<mapsto> f\<lparr>content := content f @ query\<rparr>)\<rparr>"
  have s: "WriteString filename query w = (True, w')"
    using Cons.prems by (simp add: WriteString_def w'_def)
  have "fs w' filename = Some (f\<lparr>content := content f @ query\<rparr>)"
    and "\<not> refused w' Op_write filename"
    using Cons.prems by (simp_all add: w'_def)
  from Cons.IH[OF this] show ?case using s by simp
qed

lemma dumpQueries_appends:
  "fs w filename = Some f \<Longrightarrow> \<not> refused w Op_open filename \<Longrightarrow> \<not> refused w Op_write filename \<Longrightarrow>
    fs (dumpQueries filename queries w) filename = Some (f\<lparr>content := content f @ concat queries\<rparr>)"
  using write_queries_appends[of w filename f queries]
  by (simp add: dumpQueries_def os_OpenFile_def)

text \<open>
  What \<open>dumpQueries\<close> does when the file does not exist and nothing is refused: the file is
  created with the mode 0666 (438) less the umask, and holds the queries.
\<close>

lemma dumpQueries_creates:
  assumes "fs w filename = None" and "\<not> refused w Op_create filename"
    and "\<not> refused w Op_open filename" and "\<not> refused w Op_write filename"
  shows "fs (dumpQueries filename queries w) filename =
    Some \<lparr>fmode = 438 AND NOT (umask w), content = concat queries\<rparr>"
proof -
  define w1 where
    "w1 = w\<lparr>fs := (fs w)(filename \<mapsto> \<lparr>fmode = 438 AND NOT (umask w), content = []\<rparr>)\<rparr>"
  have c: "os_Create filename w = (True, w1)"
    using assms by (simp add: os_Create_def os_OpenFile_def w1_def)
  have f: "fs w1 filename = Some \<lparr>fmode = 438 AND NOT (umask w), content = []\<rparr>"
    and r: "\<not> refused w1 Op_open filename" "\<not> refused w1 Op_write filename"
    using assms by (simp_all add: w1_def)
  have "dumpQueries filename queries w = write_queries filename queries w1"
    using assms(1) c f r by (simp add: dumpQueries_def os_OpenFile_def)
  then show ?thesis using write_queries_appends[OF f r(2), of queries] by simp
qed

text \<open>
  C7, at a failing input. With the usual umask 022 and no file \<open>dump\<close>, \<open>dumpQueries\<close>
  creates the file through \<open>os.Create\<close>, with mode 0644 (420); the mode 0600 (384) of
  line 295 belongs to a call that does not create. The two queries are appended.
\<close>

theorem dumpQueries_creates_0644:
  "fs (world_answering reply) ''dump'' = None \<and>
   umask (world_answering reply) = 18 \<and>
   fs (dumpQueries ''dump'' [''q1'' @ nl, ''q2'' @ nl] (world_answering reply)) ''dump'' =
     Some \<lparr>fmode = 420, content = ''q1'' @ nl @ ''q2'' @ nl\<rparr> \<and>
   (420 :: FileMode) \<noteq> 384"
  by (simp add: worker_defs example_defs)


end
